theory Spec2Isabelle
  imports Main
begin

section \<open>The IAMKey API types (apis/exoscale/v1/iam_types.go)\<close>

text \<open>
  Go strings are modelled as \<open>string\<close>, a Go slice of strings as a list, a Go map
  from strings to strings as a partial map (reading an absent key of a Go map gives
  the zero value, the empty string), and a pointer that may be nil as an option.
  Two structs may share a field name, as \<open>KeyName\<close> and \<open>Name\<close> do; the field is then
  written with the name of its struct in front, \<open>IAMKeyParameters.KeyName\<close>. An
  embedded struct is a field named after its type.
\<close>

subsection \<open>Constants\<close>

definition AccessKeyIDName :: string where
  "AccessKeyIDName = ''AWS_ACCESS_KEY_ID''"

definition SecretAccessKeyName :: string where
  "SecretAccessKeyName = ''AWS_SECRET_ACCESS_KEY''"

subsection \<open>Structs\<close>

record SOSSpec =
  Buckets :: "string list"

record ServicesSpec =
  SOS :: SOSSpec

record IAMKeyParameters =
  KeyName :: string
  Zone :: string
  Services :: ServicesSpec

text \<open>
  \<open>xpv1.Reference\<close> and \<open>xpv1.ResourceSpec\<close> of crossplane-runtime, as far as this
  file reads them: the name of a reference, and the optional (nil-able) reference to
  the provider configuration.
\<close>

record Reference =
  Name :: string

record ResourceSpec =
  ProviderConfigReference :: "Reference option"

record IAMKeySpec =
  ResourceSpec :: ResourceSpec
  ForProvider :: IAMKeyParameters

record IAMKeyObservation =
  KeyID :: string
  RoleID :: string
  KeyName :: string
  ServicesSpec :: ServicesSpec

text \<open>
  \<open>xpv1.ResourceStatus\<close> of crossplane-runtime carries the conditions of the
  resource. Modelled from the spec (sections 6 and 9): the condition set is the two
  kinds Ready and Synced, each with a status True, False or Unknown and a
  machine-readable reason.
\<close>

datatype ConditionStatus = ConditionTrue | ConditionFalse | ConditionUnknown

record Condition =
  CondStatus :: ConditionStatus
  Reason :: string

record ResourceStatus =
  Ready :: Condition
  Synced :: Condition

record IAMKeyStatus =
  ResourceStatus :: ResourceStatus
  AtProvider :: IAMKeyObservation

text \<open>
  \<open>metav1.ObjectMeta\<close>, as far as it is read here: the cluster name of the object,
  its annotations, its deletion timestamp (nil while the object is not being deleted)
  and its finalizers.
\<close>

record ObjectMeta =
  Name :: string
  Annotations :: "string \<rightharpoonup> string"
  DeletionTimestamp :: "nat option"
  Finalizers :: "string list"

record IAMKey =
  ObjectMeta :: ObjectMeta
  Spec :: IAMKeySpec
  Status :: IAMKeyStatus

subsection \<open>The external name annotation\<close>

text \<open>
  \<open>meta.GetExternalName\<close> of crossplane-runtime reads the annotation
  \<open>crossplane.io/external-name\<close> of the object, as the comment of \<open>GetKeyName\<close>
  says; a Go map read gives the empty string when the key is absent.
\<close>

definition AnnotationKeyExternalName :: string where
  "AnnotationKeyExternalName = ''crossplane.io/external-name''"

definition GetExternalName :: "IAMKey \<Rightarrow> string" where
  "GetExternalName in' =
     (case Annotations (ObjectMeta in') AnnotationKeyExternalName of
        None \<Rightarrow> ''''
      | Some name \<Rightarrow> name)"

subsection \<open>Methods of IAMKey\<close>

definition GetKeyName :: "IAMKey \<Rightarrow> string" where
  "GetKeyName in' =
     (if IAMKeyParameters.KeyName (ForProvider (Spec in')) \<noteq> ''''
      then IAMKeyParameters.KeyName (ForProvider (Spec in'))
      else (let name = GetExternalName in' in
        if name \<noteq> '''' then name
        else Name (ObjectMeta in')))"

text \<open>
  \<open>GetProviderConfigReference\<close> is a method of \<open>IAMKey\<close> that is not in this source
  file (it is generated for the embedded \<open>xpv1.ResourceSpec\<close>); it is a parameter of
  the model of \<open>GetProviderConfigName\<close>, returning the reference or nil.
\<close>

definition GetProviderConfigName :: "(IAMKey \<Rightarrow> Reference option) \<Rightarrow> IAMKey \<Rightarrow> string" where
  "GetProviderConfigName GetProviderConfigReference in' =
     (case GetProviderConfigReference in' of
        Some ref \<Rightarrow> Reference.Name ref
      | None \<Rightarrow> '''')"

section \<open>The reconciliation engine\<close>

text \<open>
  The engine, the client adapter and the admission validation are not among the
  source files; \<open>iam_types.go\<close> declares the resource type they work on and the names
  of the two secret fields. The definitions marked so are modelled from the
  specification (sections 3, 4.1, 4.3, 6 and 7) over the types above; the hypothesis
  on adapters, the stub adapters and the sample resources are not. The optimistic
  concurrency of the resource store and the deadlines of the remote calls are outside
  the model: one invocation runs from its beginning to its end on its own.
\<close>

subsection \<open>The client adapter\<close>

text \<open>
  Modelled from the spec: the key record the adapter returns (section 4.3: it includes
  the secret, the id and the role id), with the name and the bucket scope that the
  engine copies into the observed state.
\<close>

record KeyRecord =
  ExternalID :: string
  ExternalRoleID :: string
  RecordKeyName :: string
  RecordBuckets :: "string list"
  SecretKey :: string

text \<open>
  Modelled from the spec: the answers of the three operations of the adapter with
  their error classification (section 4.3).
\<close>

datatype FetchResult = Found KeyRecord | FetchNotFound | FetchTransientErr

datatype CreateResult = Created KeyRecord | CreatePermanentErr | CreateTransientErr

datatype RevokeResult = Revoked | RevokeNotFound | RevokeTransientErr

text \<open>
  Modelled from the spec: the adapter (section 4.3) as functions of the state \<open>'w\<close> of
  the remote provider. \<open>FetchByID\<close> only reads that state; \<open>Create\<close> and \<open>Revoke\<close> return
  the state they leave behind. \<open>ListByName\<close> is used for diagnostics only and takes no
  part in reconciliation.
\<close>

record 'w Adapter =
  FetchByID :: "'w \<Rightarrow> string \<Rightarrow> string \<Rightarrow> FetchResult"
  Create :: "'w \<Rightarrow> string \<Rightarrow> string \<Rightarrow> string list \<Rightarrow> CreateResult \<times> 'w"
  Revoke :: "'w \<Rightarrow> string \<Rightarrow> string \<Rightarrow> RevokeResult \<times> 'w"

text \<open>
  Modelled from the spec: the adapter calls that an invocation issues (section 8
  counts them), each with its zone, its other arguments and its answer.
\<close>

datatype AdapterCall =
    FetchCall string string FetchResult
  | CreateCall string string "string list" CreateResult
  | RevokeCall string string RevokeResult

fun isCreateCall :: "AdapterCall \<Rightarrow> bool" where
  "isCreateCall (CreateCall z n b r) = True"
| "isCreateCall c = False"

fun isSuccessfulCreate :: "AdapterCall \<Rightarrow> bool" where
  "isSuccessfulCreate (CreateCall z n b (Created r)) = True"
| "isSuccessfulCreate c = False"

subsection \<open>The state the engine works on\<close>

text \<open>
  Modelled from the spec: the resource store (resources by cluster name), the secret
  store that credentials are published to (one key-value secret per resource), and
  the state of the remote provider.
\<close>

record 'w Engine =
  store :: "string \<rightharpoonup> IAMKey"
  secrets :: "string \<rightharpoonup> (string \<rightharpoonup> string)"
  world :: 'w

text \<open>
  Modelled from the spec: what \<open>Reconcile\<close> returns, the requeue decision (no requeue,
  the standard resync interval, or an error that makes the scheduler retry with
  backoff).
\<close>

datatype Requeue = NoRequeue | RequeueStandard | RetryWithBackoff

record 'w Reconciled =
  Calls :: "AdapterCall list"
  Outcome :: Requeue
  After :: "'w Engine"

subsection \<open>Status updates\<close>

text \<open>
  Modelled from the spec: the fixed reasons of the conditions (section 7) and the
  finalizer that keeps the stored resource until the external key is revoked
  (section 4.1, step 6). The spec fixes that there are such strings, not their text.
\<close>

definition ReasonAvailable :: string where
  "ReasonAvailable = ''Available''"

definition ReasonReconcileSuccess :: string where
  "ReasonReconcileSuccess = ''ReconcileSuccess''"

definition ReasonConfigurationError :: string where
  "ReasonConfigurationError = ''ConfigurationError''"

definition FinalizerName :: string where
  "FinalizerName = ''finalizer.managedresource.crossplane.io''"

text \<open>Modelled from the spec: marking the condition Ready or Synced (section 4.1).\<close>

definition setReady :: "Condition \<Rightarrow> IAMKey \<Rightarrow> IAMKey" where
  "setReady c k =
     k\<lparr>Status := (Status k)\<lparr>ResourceStatus := (ResourceStatus (Status k))\<lparr>Ready := c\<rparr>\<rparr>\<rparr>"

definition setSynced :: "Condition \<Rightarrow> IAMKey \<Rightarrow> IAMKey" where
  "setSynced c k =
     k\<lparr>Status := (Status k)\<lparr>ResourceStatus := (ResourceStatus (Status k))\<lparr>Synced := c\<rparr>\<rparr>\<rparr>"

text \<open>
  Modelled from the spec: the observed state is overwritten wholesale from the key
  record, never merged field by field (section 3).
\<close>

definition setObserved :: "KeyRecord \<Rightarrow> IAMKey \<Rightarrow> IAMKey" where
  "setObserved r k = k\<lparr>Status := (Status k)\<lparr>AtProvider :=
     \<lparr>KeyID = ExternalID r, RoleID = ExternalRoleID r,
      IAMKeyObservation.KeyName = RecordKeyName r,
      ServicesSpec = \<lparr>SOS = \<lparr>Buckets = RecordBuckets r\<rparr>\<rparr>\<rparr>\<rparr>\<rparr>"

text \<open>
  Modelled from the spec: clearing the stale external id when the key is gone
  (section 4.1, step 3), and removing the finalizer after the revoke (step 6).
\<close>

definition clearExternalID :: "IAMKey \<Rightarrow> IAMKey" where
  "clearExternalID k =
     k\<lparr>Status := (Status k)\<lparr>AtProvider := (AtProvider (Status k))\<lparr>KeyID := ''''\<rparr>\<rparr>\<rparr>"

definition removeFinalizer :: "IAMKey \<Rightarrow> IAMKey" where
  "removeFinalizer k = k\<lparr>ObjectMeta := (ObjectMeta k)\<lparr>Finalizers :=
     filter (\<lambda>f. f \<noteq> FinalizerName) (Finalizers (ObjectMeta k))\<rparr>\<rparr>"

text \<open>
  Modelled from the spec: the resolved name is cached in the correlation annotation
  at the first successful create; the annotation is set once (sections 3 and 6).
\<close>

definition cacheExternalName :: "string \<Rightarrow> IAMKey \<Rightarrow> IAMKey" where
  "cacheExternalName n k =
     (if GetExternalName k \<noteq> '''' then k
      else k\<lparr>ObjectMeta := (ObjectMeta k)\<lparr>Annotations :=
             (Annotations (ObjectMeta k))(AnnotationKeyExternalName \<mapsto> n)\<rparr>\<rparr>)"

text \<open>
  Modelled from the spec: the desired zone and bucket list and the observed external
  id of a resource (section 3), read from the fields of \<open>IAMKey\<close>.
\<close>

definition desiredZone :: "IAMKey \<Rightarrow> string" where
  "desiredZone k = Zone (ForProvider (Spec k))"

definition desiredBuckets :: "IAMKey \<Rightarrow> string list" where
  "desiredBuckets k = Buckets (SOS (Services (ForProvider (Spec k))))"

definition externalID :: "IAMKey \<Rightarrow> string" where
  "externalID k = KeyID (AtProvider (Status k))"

subsection \<open>The paths of one invocation\<close>

text \<open>
  Modelled from the spec: step 4 of section 4.1, Create. The name is resolved by
  \<open>GetKeyName\<close>; the adapter creates the key with the desired zone, name and buckets.
  On success the returned record is stored as the observed state, Ready becomes
  True, and the pair of access key id and secret key is published to the secret
  store under \<open>AccessKeyIDName\<close> and \<open>SecretAccessKeyName\<close> (section 6). On a permanent
  error Ready becomes False with a fixed reason and the resource is requeued at the
  standard interval. On a transient error the resource is left as it is and the
  invocation ends in an error.
\<close>

definition CreatePath ::
  "'w Adapter \<Rightarrow> string \<Rightarrow> IAMKey \<Rightarrow> AdapterCall list \<Rightarrow> 'w Engine \<Rightarrow> 'w Reconciled" where
  "CreatePath ad name k cs s =
     (let n = GetKeyName k;
          z = desiredZone k;
          b = desiredBuckets k;
          answer = Create ad (world s) z n b;
          cs' = cs @ [CreateCall z n b (fst answer)];
          s' = s\<lparr>world := snd answer\<rparr>
      in case fst answer of
           Created r \<Rightarrow>
             \<lparr>Calls = cs', Outcome = RequeueStandard,
              After = s'\<lparr>store := (store s)(name \<mapsto>
                           setReady \<lparr>CondStatus = ConditionTrue, Reason = ReasonAvailable\<rparr>
                             (cacheExternalName n (setObserved r k))),
                         secrets := (secrets s)(name \<mapsto>
                           [AccessKeyIDName \<mapsto> ExternalID r, SecretAccessKeyName \<mapsto> SecretKey r])\<rparr>\<rparr>
         | CreatePermanentErr \<Rightarrow>
             \<lparr>Calls = cs', Outcome = RequeueStandard,
              After = s'\<lparr>store := (store s)(name \<mapsto>
                           setReady \<lparr>CondStatus = ConditionFalse, Reason = ReasonConfigurationError\<rparr> k)\<rparr>\<rparr>
         | CreateTransientErr \<Rightarrow>
             \<lparr>Calls = cs', Outcome = RetryWithBackoff,
              After = s'\<lparr>store := (store s)(name \<mapsto> k)\<rparr>\<rparr>)"

text \<open>
  Modelled from the spec: step 5, Update. The remote API has no update in place: a
  change of the bucket scope is a revoke followed by a create. When the revoke fails
  with a transient error the resource is left as it was stored.
\<close>

definition UpdatePath ::
  "'w Adapter \<Rightarrow> string \<Rightarrow> IAMKey \<Rightarrow> AdapterCall list \<Rightarrow> 'w Engine \<Rightarrow> 'w Reconciled" where
  "UpdatePath ad name k cs s =
     (let z = desiredZone k;
          i = externalID k;
          answer = Revoke ad (world s) z i;
          cs' = cs @ [RevokeCall z i (fst answer)];
          s' = s\<lparr>world := snd answer\<rparr>
      in case fst answer of
           RevokeTransientErr \<Rightarrow> \<lparr>Calls = cs', Outcome = RetryWithBackoff, After = s'\<rparr>
         | _ \<Rightarrow> CreatePath ad name (clearExternalID k) cs' s')"

text \<open>
  Modelled from the spec: step 3, Observe, for a resource whose external id is set.
  Found with the desired bucket scope: the observed state is overwritten, Ready and
  Synced become True, requeue at the standard interval. Found with another bucket
  scope: Update. Not found: the external id is cleared and the invocation falls
  through to Create. Transient error: nothing is changed and the invocation ends in an
  error.
\<close>

definition ObservePath :: "'w Adapter \<Rightarrow> string \<Rightarrow> IAMKey \<Rightarrow> 'w Engine \<Rightarrow> 'w Reconciled" where
  "ObservePath ad name k s =
     (let z = desiredZone k;
          i = externalID k;
          answer = FetchByID ad (world s) z i;
          cs = [FetchCall z i answer]
      in case answer of
           FetchTransientErr \<Rightarrow> \<lparr>Calls = cs, Outcome = RetryWithBackoff, After = s\<rparr>
         | FetchNotFound \<Rightarrow> CreatePath ad name (clearExternalID k) cs s
         | Found r \<Rightarrow>
             if RecordBuckets r = desiredBuckets k
             then \<lparr>Calls = cs, Outcome = RequeueStandard,
                   After = s\<lparr>store := (store s)(name \<mapsto>
                     setSynced \<lparr>CondStatus = ConditionTrue, Reason = ReasonReconcileSuccess\<rparr>
                       (setReady \<lparr>CondStatus = ConditionTrue, Reason = ReasonAvailable\<rparr>
                         (setObserved r k)))\<rparr>\<rparr>
             else UpdatePath ad name (setObserved r k) cs s)"

text \<open>
  Modelled from the spec: step 6, Delete, for a resource with a deletion timestamp.
  With an external id the adapter revokes the key; not found counts as success. On
  success the finalizer is removed. On a transient error the finalizer stays and the
  invocation ends in an error. Without an external id no remote call is made
  (section 3) and the finalizer is removed.
\<close>

definition DeletePath :: "'w Adapter \<Rightarrow> string \<Rightarrow> IAMKey \<Rightarrow> 'w Engine \<Rightarrow> 'w Reconciled" where
  "DeletePath ad name k s =
     (if externalID k = ''''
      then \<lparr>Calls = [], Outcome = NoRequeue,
            After = s\<lparr>store := (store s)(name \<mapsto> removeFinalizer k)\<rparr>\<rparr>
      else
        (let z = desiredZone k;
             i = externalID k;
             answer = Revoke ad (world s) z i;
             cs = [RevokeCall z i (fst answer)];
             s' = s\<lparr>world := snd answer\<rparr>
         in case fst answer of
              RevokeTransientErr \<Rightarrow> \<lparr>Calls = cs, Outcome = RetryWithBackoff, After = s'\<rparr>
            | _ \<Rightarrow> \<lparr>Calls = cs, Outcome = NoRequeue,
                     After = s'\<lparr>store := (store s)(name \<mapsto> removeFinalizer k)\<rparr>\<rparr>))"

text \<open>
  Modelled from the spec: \<open>Reconcile\<close> (section 4.1). Step 1 fetches the resource; an
  absent resource ends the invocation with success and no requeue. Step 2 sends a
  resource with a deletion timestamp to Delete whatever else its state is. Otherwise
  a resource with an external id is observed and one without is created.
\<close>

definition Reconcile :: "'w Adapter \<Rightarrow> string \<Rightarrow> 'w Engine \<Rightarrow> 'w Reconciled" where
  "Reconcile ad name s =
     (case store s name of
        None \<Rightarrow> \<lparr>Calls = [], Outcome = NoRequeue, After = s\<rparr>
      | Some k \<Rightarrow>
          if DeletionTimestamp (ObjectMeta k) \<noteq> None then DeletePath ad name k s
          else if externalID k \<noteq> '''' then ObservePath ad name k s
          else CreatePath ad name k [] s)"

text \<open>
  Modelled from the spec: successive invocations for one resource with nothing else
  touching the stores or the provider in between (section 4.1, the guarantee; section
  8, idempotent create): the calls issued by all of them in order, and the last state.
\<close>

fun ReconcileTimes :: "nat \<Rightarrow> 'w Adapter \<Rightarrow> string \<Rightarrow> 'w Engine \<Rightarrow> AdapterCall list \<times> 'w Engine" where
  "ReconcileTimes 0 ad name s = ([], s)"
| "ReconcileTimes (Suc n) ad name s =
     (let r = Reconcile ad name s;
          rest = ReconcileTimes n ad name (After r)
      in (Calls r @ fst rest, snd rest))"

subsection \<open>Admission of declarations and spec edits\<close>

text \<open>
  Modelled from the spec: the validation in front of the engine. The validating
  webhook that the marker on \<open>IAMKey\<close> registers for create and update is not among the
  source files. Section 6 makes the zone required and the buckets a required,
  non-empty list (in the Go struct an absent field and an empty one are both the
  zero value); section 3 rejects a change of the zone once the external id is set.
\<close>

datatype Admission = Admitted | Rejected string

definition ValidateCreate :: "IAMKey \<Rightarrow> Admission" where
  "ValidateCreate k =
     (if desiredZone k = '''' then Rejected ''zone is required''
      else if desiredBuckets k = [] then Rejected ''buckets must not be empty''
      else Admitted)"

definition ValidateUpdate :: "IAMKey \<Rightarrow> IAMKey \<Rightarrow> Admission" where
  "ValidateUpdate old new =
     (case ValidateCreate new of
        Rejected m \<Rightarrow> Rejected m
      | Admitted \<Rightarrow>
          if externalID old \<noteq> '''' \<and> desiredZone new \<noteq> desiredZone old
          then Rejected ''zone is immutable''
          else Admitted)"

text \<open>
  Modelled from the spec: a user declares a resource, or edits the spec of a stored
  one; a rejected request leaves the store as it is and never reaches the engine.
\<close>

definition DeclareResource :: "IAMKey \<Rightarrow> 'w Engine \<Rightarrow> 'w Engine" where
  "DeclareResource k s =
     (case ValidateCreate k of
        Rejected m \<Rightarrow> s
      | Admitted \<Rightarrow>
          (case store s (Name (ObjectMeta k)) of
             Some old \<Rightarrow> s
           | None \<Rightarrow> s\<lparr>store := (store s)(Name (ObjectMeta k) \<mapsto> k)\<rparr>))"

definition EditSpec :: "string \<Rightarrow> IAMKeySpec \<Rightarrow> 'w Engine \<Rightarrow> 'w Engine" where
  "EditSpec name spec' s =
     (case store s name of
        None \<Rightarrow> s
      | Some old \<Rightarrow>
          (case ValidateUpdate old (old\<lparr>Spec := spec'\<rparr>) of
             Rejected m \<Rightarrow> s
           | Admitted \<Rightarrow> s\<lparr>store := (store s)(name \<mapsto> old\<lparr>Spec := spec'\<rparr>)\<rparr>))"

subsection \<open>Adapters that behave as a store of keys\<close>

text \<open>
  A hypothesis on the adapter, not a part of the specification: section 4.3 gives
  the operations and their error classes and says nothing of how the answers of one
  call bear on the next. The idempotence theorem below names this hypothesis, and the
  amended claim states it. An adapter behaves as a store of keys when
  \<^item> a key that Create answers with has a non-empty id and can at once be fetched under
    that id, with the bucket scope it was created with;
  \<^item> a Create that answers with an error leaves the provider as it was (so a create
    that takes effect while its answer is lost, the case of sections 5 and 9, is not
    such an adapter);
  \<^item> a key that Revoke answers success for is not found afterwards;
  \<^item> a Revoke that answers not found or a transient error leaves the provider as it
    was, and so does any Revoke of a key that is not found;
  \<^item> a fetched record carries the id it was fetched by.
\<close>

definition Consistent :: "'w Adapter \<Rightarrow> bool" where
  "Consistent ad \<longleftrightarrow>
     (\<forall>w z n b r. fst (Create ad w z n b) = Created r \<longrightarrow>
        ExternalID r \<noteq> '''' \<and>
        (\<exists>r'. FetchByID ad (snd (Create ad w z n b)) z (ExternalID r) = Found r'
                \<and> RecordBuckets r' = b))
   \<and> (\<forall>w z n b. fst (Create ad w z n b) \<in> {CreatePermanentErr, CreateTransientErr} \<longrightarrow>
        snd (Create ad w z n b) = w)
   \<and> (\<forall>w z i. fst (Revoke ad w z i) = Revoked \<longrightarrow>
        FetchByID ad (snd (Revoke ad w z i)) z i = FetchNotFound)
   \<and> (\<forall>w z i. fst (Revoke ad w z i) \<in> {RevokeNotFound, RevokeTransientErr} \<longrightarrow>
        snd (Revoke ad w z i) = w)
   \<and> (\<forall>w z i. FetchByID ad w z i = FetchNotFound \<longrightarrow> snd (Revoke ad w z i) = w)
   \<and> (\<forall>w z i r. FetchByID ad w z i = Found r \<longrightarrow> ExternalID r = i)"

text \<open>
  Two notions for the proof of idempotence. A resource is settled when it is not
  being deleted, has an external id, and the provider holds the key of that id with
  the desired bucket scope. A state is quiet when an invocation leaves it exactly as
  it is and creates nothing.
\<close>

definition Settled :: "'w Adapter \<Rightarrow> string \<Rightarrow> 'w Engine \<Rightarrow> bool" where
  "Settled ad name s =
     (case store s name of
        None \<Rightarrow> False
      | Some k \<Rightarrow>
          DeletionTimestamp (ObjectMeta k) = None \<and> externalID k \<noteq> '''' \<and>
          (case FetchByID ad (world s) (desiredZone k) (externalID k) of
             Found r \<Rightarrow> RecordBuckets r = desiredBuckets k
           | _ \<Rightarrow> False))"

definition Quiet :: "'w Adapter \<Rightarrow> string \<Rightarrow> 'w Engine \<Rightarrow> bool" where
  "Quiet ad name s \<longleftrightarrow>
     After (Reconcile ad name s) = s
     \<and> (\<forall>c \<in> set (Calls (Reconcile ad name s)). \<not> isSuccessfulCreate c)"

subsection \<open>A stub adapter\<close>

text \<open>
  A stub of the adapter for the closed instances (section 8 of the spec tests the
  engine with a stubbed adapter): a provider held in memory. It keeps the keys by
  zone and id, hands out a new id for every create, and can be switched to answer
  every call with a transient error. A create with an empty bucket list is an
  invalid parameter, a permanent error (section 7).
\<close>

datatype Fault = Healthy | Unreachable

record Provider =
  Keys :: "(string \<times> string) \<rightharpoonup> KeyRecord"
  IssuedIDs :: nat
  Mode :: Fault

definition newID :: "nat \<Rightarrow> string" where
  "newID n = ''EXO'' @ replicate n (CHR ''x'')"

definition stubFetchByID :: "Provider \<Rightarrow> string \<Rightarrow> string \<Rightarrow> FetchResult" where
  "stubFetchByID w z i =
     (if Mode w = Unreachable then FetchTransientErr
      else case Keys w (z, i) of
             None \<Rightarrow> FetchNotFound
           | Some r \<Rightarrow> Found (r\<lparr>ExternalID := i\<rparr>))"

definition stubCreate :: "Provider \<Rightarrow> string \<Rightarrow> string \<Rightarrow> string list \<Rightarrow> CreateResult \<times> Provider" where
  "stubCreate w z n b =
     (if Mode w = Unreachable then (CreateTransientErr, w)
      else if b = [] then (CreatePermanentErr, w)
      else
        (let i = newID (IssuedIDs w);
             r = \<lparr>ExternalID = i, ExternalRoleID = ''role-'' @ i, RecordKeyName = n,
                  RecordBuckets = b, SecretKey = ''secret-'' @ i\<rparr>
         in (Created r, w\<lparr>Keys := (Keys w)((z, i) \<mapsto> r), IssuedIDs := Suc (IssuedIDs w)\<rparr>)))"

definition stubRevoke :: "Provider \<Rightarrow> string \<Rightarrow> string \<Rightarrow> RevokeResult \<times> Provider" where
  "stubRevoke w z i =
     (if Mode w = Unreachable then (RevokeTransientErr, w)
      else case Keys w (z, i) of
             None \<Rightarrow> (RevokeNotFound, w)
           | Some r \<Rightarrow> (Revoked, w\<lparr>Keys := (Keys w)((z, i) := None)\<rparr>))"

definition stubAdapter :: "Provider Adapter" where
  "stubAdapter = \<lparr>FetchByID = stubFetchByID, Create = stubCreate, Revoke = stubRevoke\<rparr>"

text \<open>
  A second stub, for the case that sections 5 and 9 of the spec name: the creation
  call succeeds at the provider but its response is lost, so the adapter answers with
  a transient error while the key exists. Fetch and revoke are those of the first
  stub.
\<close>

definition lossyCreate :: "Provider \<Rightarrow> string \<Rightarrow> string \<Rightarrow> string list \<Rightarrow> CreateResult \<times> Provider" where
  "lossyCreate w z n b = (CreateTransientErr, snd (stubCreate w z n b))"

definition lossyAdapter :: "Provider Adapter" where
  "lossyAdapter = \<lparr>FetchByID = stubFetchByID, Create = lossyCreate, Revoke = stubRevoke\<rparr>"

definition emptyProvider :: "Fault \<Rightarrow> Provider" where
  "emptyProvider m = \<lparr>Keys = Map.empty, IssuedIDs = 0, Mode = m\<rparr>"

text \<open>An engine state holding the one resource \<open>k\<close> and no secret.\<close>

definition engineWith :: "IAMKey \<Rightarrow> 'w \<Rightarrow> 'w Engine" where
  "engineWith k w = \<lparr>store = [Name (ObjectMeta k) \<mapsto> k], secrets = Map.empty, world = w\<rparr>"

subsection \<open>Edits and sample resources\<close>

text \<open>
  A spec edit that replaces the key name override \<open>.spec.forProvider.keyName\<close> and
  leaves every other field of the resource as it is.
\<close>

definition setKeyName :: "string \<Rightarrow> IAMKey \<Rightarrow> IAMKey" where
  "setKeyName n k = k\<lparr>Spec := (Spec k)\<lparr>ForProvider := (ForProvider (Spec k))\<lparr>IAMKeyParameters.KeyName := n\<rparr>\<rparr>\<rparr>"

text \<open>
  A sample resource for the closed instances below: key name override \<open>ov\<close>,
  annotations \<open>ann\<close>, cluster name \<open>nm\<close>, provider configuration reference
  \<open>pc\<close>, zone \<open>ch-gva-2\<close>, one bucket, nothing observed yet.
\<close>

definition unknownCondition :: Condition where
  "unknownCondition = \<lparr>CondStatus = ConditionUnknown, Reason = ''''\<rparr>"

definition sampleKey :: "string \<Rightarrow> (string \<rightharpoonup> string) \<Rightarrow> string \<Rightarrow> Reference option \<Rightarrow> IAMKey" where
  "sampleKey ov ann nm pc =
     \<lparr>ObjectMeta = \<lparr>Name = nm, Annotations = ann, DeletionTimestamp = None, Finalizers = []\<rparr>,
      Spec = \<lparr>ResourceSpec = \<lparr>ProviderConfigReference = pc\<rparr>,
              ForProvider = \<lparr>IAMKeyParameters.KeyName = ov, Zone = ''ch-gva-2'',
                             Services = \<lparr>SOS = \<lparr>Buckets = [''bucket-a'']\<rparr>\<rparr>\<rparr>\<rparr>,
      Status = \<lparr>ResourceStatus = \<lparr>Ready = unknownCondition, Synced = unknownCondition\<rparr>,
                AtProvider = \<lparr>KeyID = '''', RoleID = '''', IAMKeyObservation.KeyName = '''',
                              ServicesSpec = \<lparr>SOS = \<lparr>Buckets = []\<rparr>\<rparr>\<rparr>\<rparr>\<rparr>"

text \<open>
  A stored sample resource named \<open>key1\<close> in zone \<open>ch-gva-2\<close> with the desired buckets
  \<open>bs\<close>, the observed external id \<open>i\<close>, the deletion timestamp \<open>del\<close> and the
  finalizers \<open>fs\<close>; a key record of the provider with id \<open>i\<close> and buckets \<open>b\<close>; and a
  provider holding one key record in that zone.
\<close>

definition sampleStored :: "string list \<Rightarrow> string \<Rightarrow> nat option \<Rightarrow> string list \<Rightarrow> IAMKey" where
  "sampleStored bs i del fs =
     \<lparr>ObjectMeta = \<lparr>Name = ''key1'', Annotations = Map.empty, DeletionTimestamp = del,
                    Finalizers = fs\<rparr>,
      Spec = \<lparr>ResourceSpec = \<lparr>ProviderConfigReference = None\<rparr>,
              ForProvider = \<lparr>IAMKeyParameters.KeyName = '''', Zone = ''ch-gva-2'',
                             Services = \<lparr>SOS = \<lparr>Buckets = bs\<rparr>\<rparr>\<rparr>\<rparr>,
      Status = \<lparr>ResourceStatus = \<lparr>Ready = unknownCondition, Synced = unknownCondition\<rparr>,
                AtProvider = \<lparr>KeyID = i, RoleID = '''', IAMKeyObservation.KeyName = '''',
                              ServicesSpec = \<lparr>SOS = \<lparr>Buckets = []\<rparr>\<rparr>\<rparr>\<rparr>\<rparr>"

definition sampleRecord :: "string \<Rightarrow> string list \<Rightarrow> KeyRecord" where
  "sampleRecord i b =
     \<lparr>ExternalID = i, ExternalRoleID = ''role-1'', RecordKeyName = ''key1'',
      RecordBuckets = b, SecretKey = ''secret-1''\<rparr>"

definition providerWith :: "KeyRecord \<Rightarrow> Fault \<Rightarrow> Provider" where
  "providerWith r m = \<lparr>Keys = [(''ch-gva-2'', ExternalID r) \<mapsto> r], IssuedIDs = 1, Mode = m\<rparr>"

text \<open>Whether the stored resource of that name carries the finalizer of the engine.\<close>

definition hasFinalizer :: "'w Engine \<Rightarrow> string \<Rightarrow> bool" where
  "hasFinalizer s name =
     (case store s name of
        None \<Rightarrow> False
      | Some k \<Rightarrow> FinalizerName \<in> set (Finalizers (ObjectMeta k)))"

section \<open>The external name resolver\<close>

lemma GetExternalName_sampleKey:
  "GetExternalName (sampleKey ov ann nm pc) =
     (case ann AnnotationKeyExternalName of None \<Rightarrow> '''' | Some n \<Rightarrow> n)"
  by (simp add: GetExternalName_def sampleKey_def)

lemma GetKeyName_sampleKey:
  "GetKeyName (sampleKey ov ann nm pc) =
     (if ov \<noteq> '''' then ov
      else if GetExternalName (sampleKey ov ann nm pc) \<noteq> ''''
        then GetExternalName (sampleKey ov ann nm pc) else nm)"
  by (simp add: GetKeyName_def Let_def sampleKey_def)

lemma GetExternalName_setKeyName: "GetExternalName (setKeyName n k) = GetExternalName k"
  by (simp add: GetExternalName_def setKeyName_def)

lemma GetKeyName_setKeyName:
  "GetKeyName (setKeyName n k) =
     (if n \<noteq> '''' then n
      else if GetExternalName k \<noteq> '''' then GetExternalName k else Name (ObjectMeta k))"
  by (simp add: GetKeyName_def Let_def GetExternalName_setKeyName) (simp add: setKeyName_def)

text \<open>
  C1. The key name is resolved in the precedence override, then external-name
  annotation, then cluster name: a non-empty override is returned; with an empty
  override a non-empty annotation is returned; with both empty the cluster name is
  returned. The witness evaluates the three inputs of the specification,
  (x, y, z), (empty, y, z) and (empty, empty, z).
\<close>

theorem GetKeyName_precedence:
  assumes "IAMKeyParameters.KeyName (ForProvider (Spec k)) = ov"
    and "GetExternalName k = an"
    and "Name (ObjectMeta k) = nm"
  shows "(ov \<noteq> '''' \<longrightarrow> GetKeyName k = ov)
       \<and> (ov = '''' \<and> an \<noteq> '''' \<longrightarrow> GetKeyName k = an)
       \<and> (ov = '''' \<and> an = '''' \<longrightarrow> GetKeyName k = nm)"
  using assms by (simp add: GetKeyName_def Let_def)

theorem GetKeyName_precedence_witness:
  "GetKeyName (sampleKey ''x'' [AnnotationKeyExternalName \<mapsto> ''y''] ''z'' None) = ''x''
   \<and> GetKeyName (sampleKey '''' [AnnotationKeyExternalName \<mapsto> ''y''] ''z'' None) = ''y''
   \<and> GetKeyName (sampleKey '''' [AnnotationKeyExternalName \<mapsto> ''''] ''z'' None) = ''z''
   \<and> GetKeyName (sampleKey '''' Map.empty ''z'' None) = ''z''"
  using
    GetKeyName_precedence [of "sampleKey ''x'' [AnnotationKeyExternalName \<mapsto> ''y''] ''z'' None" "''x''" "''y''" "''z''"]
    GetKeyName_precedence [of "sampleKey '''' [AnnotationKeyExternalName \<mapsto> ''y''] ''z'' None" "''''" "''y''" "''z''"]
    GetKeyName_precedence [of "sampleKey '''' [AnnotationKeyExternalName \<mapsto> ''''] ''z'' None" "''''" "''''" "''z''"]
    GetKeyName_precedence [of "sampleKey '''' Map.empty ''z'' None" "''''" "''''" "''z''"]
  by (simp add: GetExternalName_sampleKey) (simp add: sampleKey_def)

text \<open>
  C2, as stated, fails on \<open>GetKeyName\<close>: two resources that differ in the override
  field only, both carrying the annotation \<open>y\<close>, resolve to different names, because
  a non-empty override is looked at before the annotation.
\<close>

theorem override_edit_changes_name_counterexample:
  "GetExternalName (sampleKey '''' [AnnotationKeyExternalName \<mapsto> ''y''] ''z'' None) = ''y''
   \<and> GetExternalName (setKeyName ''x'' (sampleKey '''' [AnnotationKeyExternalName \<mapsto> ''y''] ''z'' None)) = ''y''
   \<and> GetKeyName (sampleKey '''' [AnnotationKeyExternalName \<mapsto> ''y''] ''z'' None) = ''y''
   \<and> GetKeyName (setKeyName ''x'' (sampleKey '''' [AnnotationKeyExternalName \<mapsto> ''y''] ''z'' None)) = ''x''
   \<and> GetKeyName (setKeyName ''x'' (sampleKey '''' [AnnotationKeyExternalName \<mapsto> ''y''] ''z'' None))
       \<noteq> GetKeyName (sampleKey '''' [AnnotationKeyExternalName \<mapsto> ''y''] ''z'' None)"
  by (simp add: GetKeyName_setKeyName GetExternalName_setKeyName GetKeyName_sampleKey
      GetExternalName_sampleKey)

text \<open>
  C2, amended. For two resources with the same metadata (the same non-empty
  external-name annotation and the same cluster name), each resolves to its own
  override when that is non-empty and to the annotation otherwise. So the resolved
  names agree whenever both overrides are empty, and in general exactly when the
  two effective choices (override, or the annotation for an empty override) agree.
\<close>

theorem GetKeyName_override_edit:
  assumes "ObjectMeta k1 = ObjectMeta k2"
    and "GetExternalName k1 \<noteq> ''''"
  shows "GetKeyName k1 = (if IAMKeyParameters.KeyName (ForProvider (Spec k1)) = '''' then GetExternalName k1
                          else IAMKeyParameters.KeyName (ForProvider (Spec k1)))
       \<and> GetKeyName k2 = (if IAMKeyParameters.KeyName (ForProvider (Spec k2)) = '''' then GetExternalName k1
                          else IAMKeyParameters.KeyName (ForProvider (Spec k2)))
       \<and> (IAMKeyParameters.KeyName (ForProvider (Spec k1)) = '''' \<and> IAMKeyParameters.KeyName (ForProvider (Spec k2)) = ''''
            \<longrightarrow> GetKeyName k1 = GetKeyName k2)"
proof -
  have "GetExternalName k2 = GetExternalName k1"
    using assms(1) by (simp add: GetExternalName_def)
  then show ?thesis
    using assms(2) by (simp add: GetKeyName_def Let_def)
qed

theorem GetKeyName_override_edit_witness:
  "GetKeyName (sampleKey '''' [AnnotationKeyExternalName \<mapsto> ''y''] ''z'' None) = ''y''
   \<and> GetKeyName (sampleKey '''' [AnnotationKeyExternalName \<mapsto> ''y''] ''z'' (Some \<lparr>Reference.Name = ''p''\<rparr>)) = ''y''
   \<and> GetKeyName (sampleKey ''x'' [AnnotationKeyExternalName \<mapsto> ''y''] ''z'' None) = ''x''"
proof -
  let ?k1 = "sampleKey '''' [AnnotationKeyExternalName \<mapsto> ''y''] ''z'' None"
  let ?k2 = "sampleKey '''' [AnnotationKeyExternalName \<mapsto> ''y''] ''z'' (Some \<lparr>Reference.Name = ''p''\<rparr>)"
  let ?k3 = "sampleKey ''x'' [AnnotationKeyExternalName \<mapsto> ''y''] ''z'' None"
  have m2: "ObjectMeta ?k1 = ObjectMeta ?k2" and m3: "ObjectMeta ?k1 = ObjectMeta ?k3"
    by (simp_all add: sampleKey_def)
  have e: "GetExternalName ?k1 = ''y''"
    by (simp add: GetExternalName_sampleKey)
  then have ne: "GetExternalName ?k1 \<noteq> ''''"
    by simp
  have o: "IAMKeyParameters.KeyName (ForProvider (Spec ?k1)) = ''''" "IAMKeyParameters.KeyName (ForProvider (Spec ?k2)) = ''''"
    "IAMKeyParameters.KeyName (ForProvider (Spec ?k3)) = ''x''"
    by (simp_all add: sampleKey_def)
  from GetKeyName_override_edit [OF m2 ne] GetKeyName_override_edit [OF m3 ne] e o
  show ?thesis
    by simp
qed

text \<open>
  C8. The resolver is a function of the override, the external-name annotation and
  the cluster name alone: two resources that agree on these three values resolve to
  the same name, whatever else differs between them. (As a HOL function
  \<open>GetKeyName\<close> returns its result and nothing else: the Go method assigns to nothing
  and only reads the annotation map.)
\<close>

theorem GetKeyName_deterministic:
  assumes "IAMKeyParameters.KeyName (ForProvider (Spec k1)) = IAMKeyParameters.KeyName (ForProvider (Spec k2))"
    and "GetExternalName k1 = GetExternalName k2"
    and "Name (ObjectMeta k1) = Name (ObjectMeta k2)"
  shows "GetKeyName k1 = GetKeyName k2"
  using assms by (simp add: GetKeyName_def Let_def)

theorem GetKeyName_deterministic_witness:
  "GetKeyName (sampleKey '''' [AnnotationKeyExternalName \<mapsto> ''y''] ''z'' None)
     = GetKeyName (sampleKey '''' [''team'' \<mapsto> ''a'', AnnotationKeyExternalName \<mapsto> ''y''] ''z''
         (Some \<lparr>Reference.Name = ''p''\<rparr>))"
proof -
  let ?k1 = "sampleKey '''' [AnnotationKeyExternalName \<mapsto> ''y''] ''z'' None"
  let ?k2 = "sampleKey '''' [''team'' \<mapsto> ''a'', AnnotationKeyExternalName \<mapsto> ''y''] ''z''
         (Some \<lparr>Reference.Name = ''p''\<rparr>)"
  have o: "IAMKeyParameters.KeyName (ForProvider (Spec ?k1)) = IAMKeyParameters.KeyName (ForProvider (Spec ?k2))"
    and n: "Name (ObjectMeta ?k1) = Name (ObjectMeta ?k2)"
    by (simp_all add: sampleKey_def)
  have e: "GetExternalName ?k1 = GetExternalName ?k2"
    by (simp add: GetExternalName_sampleKey)
  from GetKeyName_deterministic [OF o e n] show ?thesis .
qed

text \<open>
  C10. \<open>GetKeyName\<close> returns one of its three candidates unchanged: the override, the
  value of the annotation \<open>crossplane.io/external-name\<close> (the empty string when the
  annotation is absent), or the cluster name. It returns the empty string only when
  all three are empty, and then it does. The closed instances follow from the
  statement alone: with only the annotation set to \<open>y\<close> the result is \<open>y\<close>, with only
  the cluster name \<open>z\<close> it is \<open>z\<close>, with only the override \<open>x\<close> it is \<open>x\<close>.
\<close>

theorem GetKeyName_candidates:
  "GetKeyName k \<in> {IAMKeyParameters.KeyName (ForProvider (Spec k)),
       (case Annotations (ObjectMeta k) ''crossplane.io/external-name'' of
          None \<Rightarrow> '''' | Some a \<Rightarrow> a),
       Name (ObjectMeta k)}
   \<and> (GetKeyName k = '''' \<longrightarrow>
        IAMKeyParameters.KeyName (ForProvider (Spec k)) = ''''
        \<and> Annotations (ObjectMeta k) ''crossplane.io/external-name'' \<in> {None, Some ''''}
        \<and> Name (ObjectMeta k) = '''')
   \<and> (IAMKeyParameters.KeyName (ForProvider (Spec k)) = ''''
        \<and> Annotations (ObjectMeta k) ''crossplane.io/external-name'' \<in> {None, Some ''''}
        \<and> Name (ObjectMeta k) = '''' \<longrightarrow> GetKeyName k = '''')"
  by (auto simp add: GetKeyName_def Let_def GetExternalName_def AnnotationKeyExternalName_def
      split: option.splits)

theorem GetKeyName_candidates_witness:
  "GetKeyName (sampleKey '''' Map.empty '''' None) = ''''
   \<and> GetKeyName (sampleKey '''' [''crossplane.io/external-name'' \<mapsto> ''''] '''' None) = ''''
   \<and> GetKeyName (sampleKey '''' [''crossplane.io/external-name'' \<mapsto> ''y''] '''' None) = ''y''
   \<and> GetKeyName (sampleKey '''' Map.empty ''z'' None) = ''z''
   \<and> GetKeyName (sampleKey ''x'' Map.empty '''' None) = ''x''"
proof -
  let ?none = "sampleKey '''' Map.empty '''' None"
  let ?blank = "sampleKey '''' [''crossplane.io/external-name'' \<mapsto> ''''] '''' None"
  let ?ann = "sampleKey '''' [''crossplane.io/external-name'' \<mapsto> ''y''] '''' None"
  let ?nm = "sampleKey '''' Map.empty ''z'' None"
  let ?ov = "sampleKey ''x'' Map.empty '''' None"
  have fields:
    "IAMKeyParameters.KeyName (ForProvider (Spec (sampleKey ov ann nm pc))) = ov"
    "Annotations (ObjectMeta (sampleKey ov ann nm pc)) = ann"
    "Name (ObjectMeta (sampleKey ov ann nm pc)) = nm" for ov ann nm pc
    by (simp_all add: sampleKey_def)
  from GetKeyName_candidates [of ?none] have "GetKeyName ?none = ''''"
    by (simp add: fields)
  moreover from GetKeyName_candidates [of ?blank] have "GetKeyName ?blank = ''''"
    by (simp add: fields)
  moreover from GetKeyName_candidates [of ?ann] have "GetKeyName ?ann = ''y''"
    by (auto simp add: fields)
  moreover from GetKeyName_candidates [of ?nm] have "GetKeyName ?nm = ''z''"
    by (auto simp add: fields)
  moreover from GetKeyName_candidates [of ?ov] have "GetKeyName ?ov = ''x''"
    by (auto simp add: fields)
  ultimately show ?thesis
    by simp
qed

section \<open>The provider configuration name\<close>

text \<open>
  C9. \<open>GetProviderConfigName\<close> returns a string for every resource, whatever the
  accessor of the reference is: the empty string when the provider configuration
  reference is nil, and the name of the reference otherwise. The nil pointer is never
  read: the name is taken from the reference only in the branch where there is one.
  The witness takes the accessor that reads the field of the embedded resource spec.
\<close>

theorem GetProviderConfigName_total:
  "(getRef k = None \<longrightarrow> GetProviderConfigName getRef k = '''')
   \<and> (\<forall>ref. getRef k = Some ref \<longrightarrow> GetProviderConfigName getRef k = Reference.Name ref)"
  by (simp add: GetProviderConfigName_def)

theorem GetProviderConfigName_total_witness:
  "GetProviderConfigName (\<lambda>k. ProviderConfigReference (ResourceSpec (Spec k)))
      (sampleKey ''x'' Map.empty ''z'' None) = ''''
   \<and> GetProviderConfigName (\<lambda>k. ProviderConfigReference (ResourceSpec (Spec k)))
      (sampleKey ''x'' Map.empty ''z'' (Some \<lparr>Reference.Name = ''exoscale''\<rparr>)) = ''exoscale''"
proof -
  let ?get = "\<lambda>k. ProviderConfigReference (ResourceSpec (Spec k))"
  have "?get (sampleKey ''x'' Map.empty ''z'' None) = None"
    and "?get (sampleKey ''x'' Map.empty ''z'' (Some \<lparr>Reference.Name = ''exoscale''\<rparr>))
      = Some \<lparr>Reference.Name = ''exoscale''\<rparr>"
    by (simp_all add: sampleKey_def)
  with GetProviderConfigName_total [of ?get "sampleKey ''x'' Map.empty ''z'' None"]
    GetProviderConfigName_total [of ?get
      "sampleKey ''x'' Map.empty ''z'' (Some \<lparr>Reference.Name = ''exoscale''\<rparr>)"]
  show ?thesis
    by simp
qed

section \<open>Properties of the reconciliation engine\<close>

lemmas sample_defs = sampleStored_def sampleRecord_def providerWith_def engineWith_def
  emptyProvider_def externalID_def desiredZone_def desiredBuckets_def

lemmas stub_defs = stubAdapter_def stubFetchByID_def stubCreate_def stubRevoke_def

subsection \<open>Delete safety\<close>

lemma removeFinalizer_gone: "FinalizerName \<notin> set (Finalizers (ObjectMeta (removeFinalizer k)))"
  by (simp add: removeFinalizer_def)

text \<open>
  C4. For a stored resource with a deletion timestamp, an external id and the
  finalizer, one invocation calls Revoke once. When Revoke answers with a transient
  error the finalizer is still present afterwards (and the invocation ends in an
  error, to be retried); when Revoke answers success or not found the finalizer is
  removed. So the finalizer goes only after the external key is known to be gone.
\<close>

theorem Delete_safety:
  assumes "store s name = Some k"
    and "DeletionTimestamp (ObjectMeta k) \<noteq> None"
    and "externalID k \<noteq> ''''"
    and "FinalizerName \<in> set (Finalizers (ObjectMeta k))"
  shows "Calls (Reconcile ad name s)
           = [RevokeCall (desiredZone k) (externalID k)
                (fst (Revoke ad (world s) (desiredZone k) (externalID k)))]
       \<and> (fst (Revoke ad (world s) (desiredZone k) (externalID k)) = RevokeTransientErr \<longrightarrow>
            hasFinalizer (After (Reconcile ad name s)) name
            \<and> Outcome (Reconcile ad name s) = RetryWithBackoff)
       \<and> (fst (Revoke ad (world s) (desiredZone k) (externalID k)) \<in> {Revoked, RevokeNotFound} \<longrightarrow>
            \<not> hasFinalizer (After (Reconcile ad name s)) name)"
  using assms
  by (auto simp add: Reconcile_def DeletePath_def Let_def hasFinalizer_def removeFinalizer_gone
      split: RevokeResult.splits)

theorem Delete_safety_witness:
  "hasFinalizer (After (Reconcile stubAdapter ''key1''
      (engineWith (sampleStored [''a''] ''EXO'' (Some 7) [FinalizerName])
         (providerWith (sampleRecord ''EXO'' [''a'']) Unreachable)))) ''key1''
   \<and> \<not> hasFinalizer (After (Reconcile stubAdapter ''key1''
      (engineWith (sampleStored [''a''] ''EXO'' (Some 7) [FinalizerName])
         (providerWith (sampleRecord ''EXO'' [''a'']) Healthy)))) ''key1''
   \<and> \<not> hasFinalizer (After (Reconcile stubAdapter ''key1''
      (engineWith (sampleStored [''a''] ''EXO'' (Some 7) [FinalizerName])
         (emptyProvider Healthy)))) ''key1''"
proof -
  let ?k = "sampleStored [''a''] ''EXO'' (Some 7) [FinalizerName]"
  let ?down = "providerWith (sampleRecord ''EXO'' [''a'']) Unreachable"
  let ?up = "providerWith (sampleRecord ''EXO'' [''a'']) Healthy"
  let ?gone = "emptyProvider Healthy"
  have st: "store (engineWith ?k w) ''key1'' = Some ?k" for w :: Provider
    by (simp add: sample_defs)
  have del: "DeletionTimestamp (ObjectMeta ?k) \<noteq> None"
    and ext: "externalID ?k \<noteq> ''''"
    and fin: "FinalizerName \<in> set (Finalizers (ObjectMeta ?k))"
    by (simp_all add: sample_defs)
  have r1: "fst (Revoke stubAdapter (world (engineWith ?k ?down)) (desiredZone ?k) (externalID ?k))
              = RevokeTransientErr"
    and r2: "fst (Revoke stubAdapter (world (engineWith ?k ?up)) (desiredZone ?k) (externalID ?k))
              = Revoked"
    and r3: "fst (Revoke stubAdapter (world (engineWith ?k ?gone)) (desiredZone ?k) (externalID ?k))
              = RevokeNotFound"
    by (simp_all add: sample_defs stub_defs)
  from Delete_safety [OF st [of ?down] del ext fin, where ad = stubAdapter]
    Delete_safety [OF st [of ?up] del ext fin, where ad = stubAdapter]
    Delete_safety [OF st [of ?gone] del ext fin, where ad = stubAdapter] r1 r2 r3
  show ?thesis
    by simp
qed

subsection \<open>Publishing the credentials\<close>

lemma CreatePath_secrets:
  assumes "\<forall>c \<in> set cs. \<not> isCreateCall c"
  shows "(\<forall>z n b r. CreateCall z n b (Created r) \<in> set (Calls (CreatePath ad name k cs s)) \<longrightarrow>
            secrets (After (CreatePath ad name k cs s))
              = (secrets s)(name \<mapsto> [AccessKeyIDName \<mapsto> ExternalID r, SecretAccessKeyName \<mapsto> SecretKey r]))
       \<and> ((\<forall>c \<in> set (Calls (CreatePath ad name k cs s)). \<not> isSuccessfulCreate c) \<longrightarrow>
            secrets (After (CreatePath ad name k cs s)) = secrets s)"
  using assms
  by (cases "fst (Create ad (world s) (desiredZone k) (GetKeyName k) (desiredBuckets k))")
     (auto simp add: CreatePath_def Let_def)

lemma UpdatePath_secrets:
  assumes "\<forall>c \<in> set cs. \<not> isCreateCall c"
  shows "(\<forall>z n b r. CreateCall z n b (Created r) \<in> set (Calls (UpdatePath ad name k cs s)) \<longrightarrow>
            secrets (After (UpdatePath ad name k cs s))
              = (secrets s)(name \<mapsto> [AccessKeyIDName \<mapsto> ExternalID r, SecretAccessKeyName \<mapsto> SecretKey r]))
       \<and> ((\<forall>c \<in> set (Calls (UpdatePath ad name k cs s)). \<not> isSuccessfulCreate c) \<longrightarrow>
            secrets (After (UpdatePath ad name k cs s)) = secrets s)"
proof (cases "fst (Revoke ad (world s) (desiredZone k) (externalID k))")
  case RevokeTransientErr
  with assms show ?thesis
    by (auto simp add: UpdatePath_def Let_def)
next
  case Revoked
  let ?cs = "cs @ [RevokeCall (desiredZone k) (externalID k) Revoked]"
  let ?s = "s\<lparr>world := snd (Revoke ad (world s) (desiredZone k) (externalID k))\<rparr>"
  have "\<forall>c \<in> set ?cs. \<not> isCreateCall c"
    using assms by simp
  from CreatePath_secrets [OF this, of ad name "clearExternalID k" ?s] Revoked
  show ?thesis
    by (simp add: UpdatePath_def Let_def)
next
  case RevokeNotFound
  let ?cs = "cs @ [RevokeCall (desiredZone k) (externalID k) RevokeNotFound]"
  let ?s = "s\<lparr>world := snd (Revoke ad (world s) (desiredZone k) (externalID k))\<rparr>"
  have "\<forall>c \<in> set ?cs. \<not> isCreateCall c"
    using assms by simp
  from CreatePath_secrets [OF this, of ad name "clearExternalID k" ?s] RevokeNotFound
  show ?thesis
    by (simp add: UpdatePath_def Let_def)
qed

lemma ObservePath_secrets:
  "(\<forall>z n b r. CreateCall z n b (Created r) \<in> set (Calls (ObservePath ad name k s)) \<longrightarrow>
            secrets (After (ObservePath ad name k s))
              = (secrets s)(name \<mapsto> [AccessKeyIDName \<mapsto> ExternalID r, SecretAccessKeyName \<mapsto> SecretKey r]))
       \<and> ((\<forall>c \<in> set (Calls (ObservePath ad name k s)). \<not> isSuccessfulCreate c) \<longrightarrow>
            secrets (After (ObservePath ad name k s)) = secrets s)"
proof (cases "FetchByID ad (world s) (desiredZone k) (externalID k)")
  case FetchTransientErr
  then show ?thesis
    by (simp add: ObservePath_def Let_def)
next
  case FetchNotFound
  have "\<forall>c \<in> set [FetchCall (desiredZone k) (externalID k) FetchNotFound]. \<not> isCreateCall c"
    by simp
  from CreatePath_secrets [OF this, of ad name "clearExternalID k" s] FetchNotFound
  show ?thesis
    by (simp add: ObservePath_def Let_def)
next
  case (Found r)
  have "\<forall>c \<in> set [FetchCall (desiredZone k) (externalID k) (Found r)]. \<not> isCreateCall c"
    by simp
  from UpdatePath_secrets [OF this, of ad name "setObserved r k" s] Found
  show ?thesis
    by (simp add: ObservePath_def Let_def setObserved_def desiredZone_def externalID_def)
qed

text \<open>
  C7. When an invocation holds a successful Create, the secret of the resource in the
  secret store is the returned pair, the access key id under \<open>AWS_ACCESS_KEY_ID\<close> and
  the secret key under \<open>AWS_SECRET_ACCESS_KEY\<close>; an invocation without a successful
  Create (one that only observes, deletes, or fails to create) leaves the secret
  store as it was. An update of the bucket scope publishes through the Create it
  ends in.
\<close>

theorem Create_publishes_credentials:
  "(\<forall>z n b r. CreateCall z n b (Created r) \<in> set (Calls (Reconcile ad name s)) \<longrightarrow>
       secrets (After (Reconcile ad name s))
         = (secrets s)(name \<mapsto> [AccessKeyIDName \<mapsto> ExternalID r, SecretAccessKeyName \<mapsto> SecretKey r]))
   \<and> ((\<forall>c \<in> set (Calls (Reconcile ad name s)). \<not> isSuccessfulCreate c) \<longrightarrow>
       secrets (After (Reconcile ad name s)) = secrets s)
   \<and> AccessKeyIDName = ''AWS_ACCESS_KEY_ID'' \<and> SecretAccessKeyName = ''AWS_SECRET_ACCESS_KEY''"
proof (cases "store s name")
  case None
  then show ?thesis
    by (simp add: Reconcile_def AccessKeyIDName_def SecretAccessKeyName_def)
next
  case (Some k)
  have nocreate: "\<forall>c \<in> set ([] :: AdapterCall list). \<not> isCreateCall c"
    by simp
  have del: "secrets (After (DeletePath ad name k s)) = secrets s
      \<and> (\<forall>c \<in> set (Calls (DeletePath ad name k s)). \<not> isCreateCall c)"
    by (simp add: DeletePath_def Let_def split: RevokeResult.splits)
  from Some del ObservePath_secrets [of ad name k s] CreatePath_secrets [OF nocreate, of ad name k s]
  show ?thesis
    by (auto simp add: Reconcile_def AccessKeyIDName_def SecretAccessKeyName_def)
qed

lemma fresh_healthy_calls:
  "Calls (Reconcile stubAdapter ''key1''
      (engineWith (sampleStored [''a''] '''' None []) (emptyProvider Healthy)))
   = [CreateCall ''ch-gva-2'' ''key1'' [''a'']
        (Created \<lparr>ExternalID = ''EXO'', ExternalRoleID = ''role-EXO'', RecordKeyName = ''key1'',
           RecordBuckets = [''a''], SecretKey = ''secret-EXO''\<rparr>)]"
  by (simp add: Reconcile_def CreatePath_def Let_def sample_defs stub_defs GetKeyName_def
      GetExternalName_def newID_def)

lemma observed_healthy_calls:
  "Calls (Reconcile stubAdapter ''key1''
      (engineWith (sampleStored [''a''] ''EXO'' None []) (providerWith (sampleRecord ''EXO'' [''a'']) Healthy)))
   = [FetchCall ''ch-gva-2'' ''EXO'' (Found (sampleRecord ''EXO'' [''a'']))]"
  by (simp add: Reconcile_def ObservePath_def Let_def sample_defs stub_defs)

theorem Create_publishes_credentials_witness:
  "secrets (After (Reconcile stubAdapter ''key1''
      (engineWith (sampleStored [''a''] '''' None []) (emptyProvider Healthy)))) ''key1''
     = Some [''AWS_ACCESS_KEY_ID'' \<mapsto> ''EXO'', ''AWS_SECRET_ACCESS_KEY'' \<mapsto> ''secret-EXO'']
   \<and> secrets (After (Reconcile stubAdapter ''key1''
      (engineWith (sampleStored [''a''] ''EXO'' None []) (providerWith (sampleRecord ''EXO'' [''a'']) Healthy))))
     = Map.empty"
proof -
  let ?fresh = "engineWith (sampleStored [''a''] '''' None []) (emptyProvider Healthy)"
  let ?seen = "engineWith (sampleStored [''a''] ''EXO'' None [])
                 (providerWith (sampleRecord ''EXO'' [''a'']) Healthy)"
  have s0: "secrets ?fresh = Map.empty" "secrets ?seen = Map.empty"
    by (simp_all add: engineWith_def)
  from Create_publishes_credentials [of stubAdapter "''key1''" ?fresh]
    Create_publishes_credentials [of stubAdapter "''key1''" ?seen]
    fresh_healthy_calls observed_healthy_calls s0
  show ?thesis
    by simp
qed

subsection \<open>The immutable zone\<close>

lemma Spec_status_updates [simp]:
  "Spec (setReady c k) = Spec k"
  "Spec (setSynced c k) = Spec k"
  "Spec (setObserved r k) = Spec k"
  "Spec (clearExternalID k) = Spec k"
  "Spec (removeFinalizer k) = Spec k"
  "Spec (cacheExternalName n k) = Spec k"
  by (simp_all add: setReady_def setSynced_def setObserved_def clearExternalID_def
      removeFinalizer_def cacheExternalName_def)

lemma CreatePath_Spec:
  "map_option Spec (store (After (CreatePath ad name k cs s)) n)
     = (if n = name then Some (Spec k) else map_option Spec (store s n))"
  by (cases "fst (Create ad (world s) (desiredZone k) (GetKeyName k) (desiredBuckets k))")
     (simp_all add: CreatePath_def Let_def)

lemma UpdatePath_Spec:
  assumes "store s name = Some k0" and "Spec k0 = Spec k"
  shows "map_option Spec (store (After (UpdatePath ad name k cs s)) n) = map_option Spec (store s n)"
  using assms
  by (cases "fst (Revoke ad (world s) (desiredZone k) (externalID k))")
     (simp_all add: UpdatePath_def Let_def CreatePath_Spec)

lemma ObservePath_Spec:
  assumes "store s name = Some k0" and "Spec k0 = Spec k"
  shows "map_option Spec (store (After (ObservePath ad name k s)) n) = map_option Spec (store s n)"
proof (cases "FetchByID ad (world s) (desiredZone k) (externalID k)")
  case FetchTransientErr
  then show ?thesis
    by (simp add: ObservePath_def Let_def)
next
  case FetchNotFound
  with assms show ?thesis
    by (simp add: ObservePath_def Let_def CreatePath_Spec)
next
  case (Found r)
  from assms(2) have "Spec k0 = Spec (setObserved r k)"
    by simp
  from UpdatePath_Spec [OF assms(1) this] Found assms show ?thesis
    by (simp add: ObservePath_def Let_def)
qed

lemma DeletePath_Spec:
  assumes "store s name = Some k0" and "Spec k0 = Spec k"
  shows "map_option Spec (store (After (DeletePath ad name k s)) n) = map_option Spec (store s n)"
  using assms
  by (cases "fst (Revoke ad (world s) (desiredZone k) (externalID k))")
     (simp_all add: DeletePath_def Let_def)

lemma Reconcile_Spec:
  "map_option Spec (store (After (Reconcile ad name s)) n) = map_option Spec (store s n)"
proof (cases "store s name")
  case None
  then show ?thesis
    by (simp add: Reconcile_def)
next
  case (Some k)
  from DeletePath_Spec [OF Some refl] ObservePath_Spec [OF Some refl]
    CreatePath_Spec [of ad name k "[]" s n] Some
  show ?thesis
    by (simp add: Reconcile_def)
qed

lemma Reconcile_keeps_Spec:
  assumes "store s name = Some k"
  shows "\<exists>k'. store (After (Reconcile ad name2 s)) name = Some k' \<and> Spec k' = Spec k"
  using Reconcile_Spec [of ad name2 s name] assms
  by auto

text \<open>
  C5. The zone of a stored resource whose external id is set is not changed by any
  operation: not by an invocation of the engine (for this or another resource), which
  never writes the spec, and not by a spec edit or a declaration, which pass the
  admission first. A spec edit with another zone is rejected there and leaves the
  whole state as it is, so it never reaches the engine.
\<close>

theorem Zone_immutable:
  assumes "store s name = Some k"
    and "externalID k \<noteq> ''''"
  shows "(\<exists>k'. store (After (Reconcile ad name2 s)) name = Some k' \<and> desiredZone k' = desiredZone k)
       \<and> (\<exists>k'. store (EditSpec name2 spec' s) name = Some k' \<and> desiredZone k' = desiredZone k)
       \<and> (\<exists>k'. store (DeclareResource k2 s) name = Some k' \<and> desiredZone k' = desiredZone k)
       \<and> (Zone (ForProvider spec') \<noteq> desiredZone k \<longrightarrow>
            ValidateUpdate k (k\<lparr>Spec := spec'\<rparr>) \<noteq> Admitted \<and> EditSpec name spec' s = s)"
proof -
  from Reconcile_keeps_Spec [OF assms(1), of ad name2]
  have a: "\<exists>k'. store (After (Reconcile ad name2 s)) name = Some k' \<and> desiredZone k' = desiredZone k"
    by (auto simp add: desiredZone_def)
  have b: "\<exists>k'. store (EditSpec name2 spec' s) name = Some k' \<and> desiredZone k' = desiredZone k"
    using assms
    by (auto simp add: EditSpec_def ValidateUpdate_def desiredZone_def
        split: option.splits Admission.splits if_splits)
  have c: "\<exists>k'. store (DeclareResource k2 s) name = Some k' \<and> desiredZone k' = desiredZone k"
    using assms(1)
    by (auto simp add: DeclareResource_def split: option.splits Admission.splits)
  have d: "Zone (ForProvider spec') \<noteq> desiredZone k \<longrightarrow>
            ValidateUpdate k (k\<lparr>Spec := spec'\<rparr>) \<noteq> Admitted \<and> EditSpec name spec' s = s"
    using assms
    by (auto simp add: EditSpec_def ValidateUpdate_def desiredZone_def
        split: option.splits Admission.splits if_splits)
  from a b c d show ?thesis
    by blast
qed

theorem Zone_immutable_witness:
  "map_option desiredZone (store (After (Reconcile stubAdapter ''key1''
       (engineWith (sampleStored [''a''] ''EXO'' None [])
          (providerWith (sampleRecord ''EXO'' [''a'']) Healthy)))) ''key1'') = Some ''ch-gva-2''
   \<and> ValidateUpdate (sampleStored [''a''] ''EXO'' None [])
        ((sampleStored [''a''] ''EXO'' None [])
           \<lparr>Spec := Spec (sampleStored [''a''] ''EXO'' None [])
              \<lparr>ForProvider := \<lparr>IAMKeyParameters.KeyName = '''', Zone = ''de-fra-1'',
                                Services = \<lparr>SOS = \<lparr>Buckets = [''a'']\<rparr>\<rparr>\<rparr>\<rparr>\<rparr>) \<noteq> Admitted
   \<and> EditSpec ''key1''
        (Spec (sampleStored [''a''] ''EXO'' None [])
           \<lparr>ForProvider := \<lparr>IAMKeyParameters.KeyName = '''', Zone = ''de-fra-1'',
                             Services = \<lparr>SOS = \<lparr>Buckets = [''a'']\<rparr>\<rparr>\<rparr>\<rparr>)
        (engineWith (sampleStored [''a''] ''EXO'' None [])
           (providerWith (sampleRecord ''EXO'' [''a'']) Healthy))
      = engineWith (sampleStored [''a''] ''EXO'' None [])
           (providerWith (sampleRecord ''EXO'' [''a'']) Healthy)"
proof -
  let ?k = "sampleStored [''a''] ''EXO'' None []"
  let ?s = "engineWith ?k (providerWith (sampleRecord ''EXO'' [''a'']) Healthy)"
  let ?spec = "Spec ?k\<lparr>ForProvider := \<lparr>IAMKeyParameters.KeyName = '''', Zone = ''de-fra-1'',
                             Services = \<lparr>SOS = \<lparr>Buckets = [''a'']\<rparr>\<rparr>\<rparr>\<rparr>"
  have st: "store ?s ''key1'' = Some ?k"
    by (simp add: sample_defs)
  have ext: "externalID ?k \<noteq> ''''"
    by (simp add: sample_defs)
  have z: "desiredZone ?k = ''ch-gva-2''" "Zone (ForProvider ?spec) \<noteq> desiredZone ?k"
    by (simp_all add: sample_defs)
  from Zone_immutable [OF st ext, where ad = stubAdapter and ?name2.0 = "''key1''"
      and spec' = ?spec and ?k2.0 = ?k] z
  show ?thesis
    by auto
qed

subsection \<open>Idempotence\<close>

lemmas status_defs = setReady_def setSynced_def setObserved_def clearExternalID_def
  removeFinalizer_def cacheExternalName_def

lemma engine_world_same [simp]: "s\<lparr>world := world s\<rparr> = s"
  by simp

lemma fields_setReady [simp]:
  "GetKeyName (setReady c k) = GetKeyName k"
  "desiredZone (setReady c k) = desiredZone k"
  "desiredBuckets (setReady c k) = desiredBuckets k"
  "externalID (setReady c k) = externalID k"
  "DeletionTimestamp (ObjectMeta (setReady c k)) = DeletionTimestamp (ObjectMeta k)"
  "setReady c (setReady c' k) = setReady c k"
  by (simp_all add: setReady_def GetKeyName_def Let_def GetExternalName_def desiredZone_def
      desiredBuckets_def externalID_def)

lemma fields_setSynced [simp]:
  "desiredZone (setSynced c k) = desiredZone k"
  "desiredBuckets (setSynced c k) = desiredBuckets k"
  "externalID (setSynced c k) = externalID k"
  "DeletionTimestamp (ObjectMeta (setSynced c k)) = DeletionTimestamp (ObjectMeta k)"
  by (simp_all add: setSynced_def desiredZone_def desiredBuckets_def externalID_def)

lemma fields_setObserved [simp]:
  "GetKeyName (setObserved r k) = GetKeyName k"
  "desiredZone (setObserved r k) = desiredZone k"
  "desiredBuckets (setObserved r k) = desiredBuckets k"
  "externalID (setObserved r k) = ExternalID r"
  "DeletionTimestamp (ObjectMeta (setObserved r k)) = DeletionTimestamp (ObjectMeta k)"
  by (simp_all add: setObserved_def GetKeyName_def Let_def GetExternalName_def desiredZone_def
      desiredBuckets_def externalID_def)

lemma fields_clearExternalID [simp]:
  "GetKeyName (clearExternalID k) = GetKeyName k"
  "desiredZone (clearExternalID k) = desiredZone k"
  "desiredBuckets (clearExternalID k) = desiredBuckets k"
  "externalID (clearExternalID k) = ''''"
  "DeletionTimestamp (ObjectMeta (clearExternalID k)) = DeletionTimestamp (ObjectMeta k)"
  by (simp_all add: clearExternalID_def GetKeyName_def Let_def GetExternalName_def desiredZone_def
      desiredBuckets_def externalID_def)

lemma fields_cacheExternalName [simp]:
  "desiredZone (cacheExternalName n k) = desiredZone k"
  "desiredBuckets (cacheExternalName n k) = desiredBuckets k"
  "externalID (cacheExternalName n k) = externalID k"
  "DeletionTimestamp (ObjectMeta (cacheExternalName n k)) = DeletionTimestamp (ObjectMeta k)"
  by (simp_all add: cacheExternalName_def desiredZone_def desiredBuckets_def externalID_def)

lemma fields_removeFinalizer [simp]:
  "desiredZone (removeFinalizer k) = desiredZone k"
  "externalID (removeFinalizer k) = externalID k"
  "DeletionTimestamp (ObjectMeta (removeFinalizer k)) = DeletionTimestamp (ObjectMeta k)"
  "removeFinalizer (removeFinalizer k) = removeFinalizer k"
  by (simp_all add: removeFinalizer_def desiredZone_def externalID_def)

lemma observed_again:
  "setSynced c (setReady d (setObserved r (setSynced c (setReady d (setObserved r k)))))
     = setSynced c (setReady d (setObserved r k))"
  by (simp add: setSynced_def setReady_def setObserved_def)

text \<open>What the adapter is asked for, one property at a time.\<close>

lemma Consistent_created:
  assumes "Consistent ad" and "fst (Create ad w z n b) = Created r"
  shows "ExternalID r \<noteq> ''''
    \<and> (\<exists>r'. FetchByID ad (snd (Create ad w z n b)) z (ExternalID r) = Found r' \<and> RecordBuckets r' = b)"
  using assms by (simp add: Consistent_def)

lemma Consistent_create_failed:
  assumes "Consistent ad" and "\<forall>r. fst (Create ad w z n b) \<noteq> Created r"
  shows "snd (Create ad w z n b) = w"
proof -
  from assms(2) have "fst (Create ad w z n b) \<in> {CreatePermanentErr, CreateTransientErr}"
    by (cases "fst (Create ad w z n b)") auto
  with assms(1) show ?thesis
    unfolding Consistent_def by blast
qed

lemma Consistent_revoked:
  assumes "Consistent ad" and "fst (Revoke ad w z i) = Revoked"
  shows "FetchByID ad (snd (Revoke ad w z i)) z i = FetchNotFound"
  using assms unfolding Consistent_def by blast

lemma Consistent_not_revoked:
  assumes "Consistent ad" and "fst (Revoke ad w z i) \<noteq> Revoked"
  shows "snd (Revoke ad w z i) = w"
proof -
  from assms(2) have "fst (Revoke ad w z i) \<in> {RevokeNotFound, RevokeTransientErr}"
    by (cases "fst (Revoke ad w z i)") auto
  with assms(1) show ?thesis
    unfolding Consistent_def by blast
qed

lemma Consistent_revoke_absent:
  assumes "Consistent ad" and "FetchByID ad w z i = FetchNotFound"
  shows "snd (Revoke ad w z i) = w"
  using assms unfolding Consistent_def by blast

lemma Consistent_found:
  assumes "Consistent ad" and "FetchByID ad w z i = Found r"
  shows "ExternalID r = i"
  using assms unfolding Consistent_def by blast

lemma Reconcile_create:
  assumes "store s name = Some k" and "DeletionTimestamp (ObjectMeta k) = None"
    and "externalID k = ''''"
  shows "Reconcile ad name s = CreatePath ad name k [] s"
  using assms by (simp add: Reconcile_def)

lemma Reconcile_observe:
  assumes "store s name = Some k" and "DeletionTimestamp (ObjectMeta k) = None"
    and "externalID k \<noteq> ''''"
  shows "Reconcile ad name s = ObservePath ad name k s"
  using assms by (simp add: Reconcile_def)

lemma Reconcile_delete:
  assumes "store s name = Some k" and "DeletionTimestamp (ObjectMeta k) \<noteq> None"
  shows "Reconcile ad name s = DeletePath ad name k s"
  using assms by (simp add: Reconcile_def)

lemma CreatePath_failed_quiet:
  assumes "Consistent ad"
    and "DeletionTimestamp (ObjectMeta k) = None" and "externalID k = ''''"
    and "\<forall>r. fst (Create ad (world s) (desiredZone k) (GetKeyName k) (desiredBuckets k)) \<noteq> Created r"
  shows "Quiet ad name (After (CreatePath ad name k cs s))"
proof -
  let ?answer = "Create ad (world s) (desiredZone k) (GetKeyName k) (desiredBuckets k)"
  let ?s1 = "After (CreatePath ad name k cs s)"
  from Consistent_create_failed [OF assms(1,4)] have w: "snd ?answer = world s" .
  show ?thesis
  proof (cases "fst ?answer")
    case (Created r)
    with assms(4) show ?thesis
      by simp
  next
    case CreatePermanentErr
    let ?k1 = "setReady \<lparr>CondStatus = ConditionFalse, Reason = ReasonConfigurationError\<rparr> k"
    from CreatePermanentErr w have s1: "?s1 = s\<lparr>store := (store s)(name \<mapsto> ?k1)\<rparr>"
      by (simp add: CreatePath_def Let_def)
    have "Reconcile ad name ?s1 = CreatePath ad name ?k1 [] ?s1"
      by (rule Reconcile_create) (simp_all add: s1 assms)
    with CreatePermanentErr w show ?thesis
      by (simp add: Quiet_def s1) (simp add: CreatePath_def Let_def)
  next
    case CreateTransientErr
    from CreateTransientErr w have s1: "?s1 = s\<lparr>store := (store s)(name \<mapsto> k)\<rparr>"
      by (simp add: CreatePath_def Let_def)
    have "Reconcile ad name ?s1 = CreatePath ad name k [] ?s1"
      by (rule Reconcile_create) (simp_all add: s1 assms)
    with CreateTransientErr w show ?thesis
      by (simp add: Quiet_def s1) (simp add: CreatePath_def Let_def)
  qed
qed

lemma CreatePath_created_settled:
  assumes "Consistent ad"
    and "DeletionTimestamp (ObjectMeta k) = None"
    and "fst (Create ad (world s) (desiredZone k) (GetKeyName k) (desiredBuckets k)) = Created r"
  shows "Settled ad name (After (CreatePath ad name k cs s))"
proof -
  let ?answer = "Create ad (world s) (desiredZone k) (GetKeyName k) (desiredBuckets k)"
  from Consistent_created [OF assms(1,3)] obtain r' where
    i: "ExternalID r \<noteq> ''''" and
    f: "FetchByID ad (snd ?answer) (desiredZone k) (ExternalID r) = Found r'" and
    b: "RecordBuckets r' = desiredBuckets k"
    by blast
  from assms(2,3) i f b show ?thesis
    by (simp add: Settled_def CreatePath_def Let_def)
qed

lemma Settled_step:
  assumes "Consistent ad" and "Settled ad name s"
  shows "Quiet ad name (After (Reconcile ad name s))
       \<and> Settled ad name (After (Reconcile ad name s))
       \<and> world (After (Reconcile ad name s)) = world s
       \<and> secrets (After (Reconcile ad name s)) = secrets s
       \<and> (\<forall>c \<in> set (Calls (Reconcile ad name s)). \<not> isCreateCall c)"
proof -
  from assms(2) obtain k r where
    st: "store s name = Some k" and
    del: "DeletionTimestamp (ObjectMeta k) = None" and
    ext: "externalID k \<noteq> ''''" and
    f: "FetchByID ad (world s) (desiredZone k) (externalID k) = Found r" and
    b: "RecordBuckets r = desiredBuckets k"
    by (auto simp add: Settled_def split: option.splits FetchResult.splits)
  from Consistent_found [OF assms(1) f] have i: "ExternalID r = externalID k" .
  let ?k1 = "setSynced \<lparr>CondStatus = ConditionTrue, Reason = ReasonReconcileSuccess\<rparr>
      (setReady \<lparr>CondStatus = ConditionTrue, Reason = ReasonAvailable\<rparr> (setObserved r k))"
  let ?s1 = "s\<lparr>store := (store s)(name \<mapsto> ?k1)\<rparr>"
  have r1: "Reconcile ad name s
      = \<lparr>Calls = [FetchCall (desiredZone k) (externalID k) (Found r)],
         Outcome = RequeueStandard, After = ?s1\<rparr>"
    using st del ext f b by (simp add: Reconcile_observe ObservePath_def Let_def)
  have st1: "store ?s1 name = Some ?k1"
    and del1: "DeletionTimestamp (ObjectMeta ?k1) = None"
    and ext1: "externalID ?k1 \<noteq> ''''"
    using del ext i by simp_all
  have f1: "FetchByID ad (world ?s1) (desiredZone ?k1) (externalID ?k1) = Found r"
    using f i by simp
  have r2: "Reconcile ad name ?s1
      = \<lparr>Calls = [FetchCall (desiredZone k) (externalID k) (Found r)],
         Outcome = RequeueStandard, After = ?s1\<rparr>"
    using f1 b i
    by (simp add: Reconcile_observe [OF st1 del1 ext1] ObservePath_def Let_def observed_again)
  have "Settled ad name ?s1"
    using del ext f b i by (simp add: Settled_def)
  with r1 r2 show ?thesis
    by (simp add: Quiet_def)
qed

lemma CreatePath_quiet_or_settled:
  assumes "Consistent ad"
    and "DeletionTimestamp (ObjectMeta k) = None" and "externalID k = ''''"
  shows "Quiet ad name (After (CreatePath ad name k cs s))
       \<or> Settled ad name (After (CreatePath ad name k cs s))"
proof (cases "\<exists>r. fst (Create ad (world s) (desiredZone k) (GetKeyName k) (desiredBuckets k)) = Created r")
  case True
  then obtain r where
    "fst (Create ad (world s) (desiredZone k) (GetKeyName k) (desiredBuckets k)) = Created r" ..
  from CreatePath_created_settled [OF assms(1,2) this] show ?thesis ..
next
  case False
  then have "\<forall>r. fst (Create ad (world s) (desiredZone k) (GetKeyName k) (desiredBuckets k))
      \<noteq> Created r"
    by simp
  from CreatePath_failed_quiet [OF assms this] show ?thesis ..
qed

lemma DeletePath_quiet:
  assumes "Consistent ad"
    and "store s name = Some k" and "DeletionTimestamp (ObjectMeta k) \<noteq> None"
  shows "Quiet ad name (After (DeletePath ad name k s))"
proof (cases "externalID k = ''''")
  case True
  let ?s1 = "s\<lparr>store := (store s)(name \<mapsto> removeFinalizer k)\<rparr>"
  from True have s1: "After (DeletePath ad name k s) = ?s1"
    by (simp add: DeletePath_def)
  have "Reconcile ad name ?s1 = DeletePath ad name (removeFinalizer k) ?s1"
    by (rule Reconcile_delete) (simp_all add: assms)
  with True show ?thesis
    by (simp add: Quiet_def s1) (simp add: DeletePath_def)
next
  case False
  let ?z = "desiredZone k" and ?i = "externalID k"
  let ?answer = "Revoke ad (world s) ?z ?i"
  show ?thesis
  proof (cases "fst ?answer = Revoked")
    case True
    let ?s1 = "s\<lparr>world := snd ?answer, store := (store s)(name \<mapsto> removeFinalizer k)\<rparr>"
    from True False have s1: "After (DeletePath ad name k s) = ?s1"
      by (simp add: DeletePath_def Let_def)
    from Consistent_revoke_absent [OF assms(1) Consistent_revoked [OF assms(1) True]]
    have w: "snd (Revoke ad (snd ?answer) ?z ?i) = snd ?answer" .
    have "Reconcile ad name ?s1 = DeletePath ad name (removeFinalizer k) ?s1"
      by (rule Reconcile_delete) (simp_all add: assms)
    with False w show ?thesis
      by (simp add: Quiet_def s1) (simp add: DeletePath_def Let_def split: RevokeResult.splits)
  next
    case notrevoked: False
    from Consistent_not_revoked [OF assms(1) notrevoked] have w: "snd ?answer = world s" .
    show ?thesis
    proof (cases "fst ?answer")
      case Revoked
      with notrevoked show ?thesis
        by simp
    next
      case RevokeTransientErr
      with False w have s1: "After (DeletePath ad name k s) = s"
        by (simp add: DeletePath_def Let_def)
      from assms(2,3) have "Reconcile ad name s = DeletePath ad name k s"
        by (rule Reconcile_delete)
      with False RevokeTransientErr w show ?thesis
        by (simp add: Quiet_def s1) (simp add: DeletePath_def Let_def)
    next
      case RevokeNotFound
      let ?s1 = "s\<lparr>store := (store s)(name \<mapsto> removeFinalizer k)\<rparr>"
      from RevokeNotFound False w have s1: "After (DeletePath ad name k s) = ?s1"
        by (simp add: DeletePath_def Let_def)
      have "Reconcile ad name ?s1 = DeletePath ad name (removeFinalizer k) ?s1"
        by (rule Reconcile_delete) (simp_all add: assms)
      with False RevokeNotFound w show ?thesis
        by (simp add: Quiet_def s1) (simp add: DeletePath_def Let_def)
    qed
  qed
qed

lemma ObservePath_quiet_or_settled:
  assumes "Consistent ad"
    and "store s name = Some k" and "DeletionTimestamp (ObjectMeta k) = None"
    and "externalID k \<noteq> ''''"
  shows "Quiet ad name (After (ObservePath ad name k s))
       \<or> Settled ad name (After (ObservePath ad name k s))"
proof -
  let ?z = "desiredZone k" and ?i = "externalID k"
  from assms(2,3,4) have obs: "Reconcile ad name s = ObservePath ad name k s"
    by (rule Reconcile_observe)
  show ?thesis
  proof (cases "FetchByID ad (world s) ?z ?i")
    case FetchTransientErr
    then have "Quiet ad name s"
      by (simp add: Quiet_def obs) (simp add: ObservePath_def Let_def)
    with FetchTransientErr show ?thesis
      by (simp add: ObservePath_def Let_def)
  next
    case FetchNotFound
    have "DeletionTimestamp (ObjectMeta (clearExternalID k)) = None"
      and "externalID (clearExternalID k) = ''''"
      using assms(3) by simp_all
    from CreatePath_quiet_or_settled [OF assms(1) this] FetchNotFound show ?thesis
      by (simp add: ObservePath_def Let_def)
  next
    case (Found r)
    show ?thesis
    proof (cases "RecordBuckets r = desiredBuckets k")
      case True
      with Found assms(2,3,4) have "Settled ad name s"
        by (simp add: Settled_def)
      from Settled_step [OF assms(1) this] show ?thesis
        by (simp add: obs)
    next
      case False
      let ?k1 = "setObserved r k"
      let ?answer = "Revoke ad (world s) (desiredZone ?k1) (externalID ?k1)"
      show ?thesis
      proof (cases "fst ?answer = RevokeTransientErr")
        case True
        then have "fst ?answer \<noteq> Revoked"
          by simp
        from Consistent_not_revoked [OF assms(1) this] have w: "snd ?answer = world s" .
        from True w Found False have same: "After (ObservePath ad name k s) = s"
          by (simp add: ObservePath_def UpdatePath_def Let_def)
        from True w Found False have "Quiet ad name s"
          by (simp add: Quiet_def obs) (simp add: ObservePath_def UpdatePath_def Let_def)
        with same show ?thesis
          by simp
      next
        case nottransient: False
        let ?cs = "[FetchCall ?z ?i (Found r)] @ [RevokeCall (desiredZone ?k1) (externalID ?k1) (fst ?answer)]"
        let ?s1 = "s\<lparr>world := snd ?answer\<rparr>"
        from nottransient Found False
        have up: "ObservePath ad name k s = CreatePath ad name (clearExternalID ?k1) ?cs ?s1"
          by (simp add: ObservePath_def UpdatePath_def Let_def split: RevokeResult.splits)
        have "DeletionTimestamp (ObjectMeta (clearExternalID ?k1)) = None"
          and "externalID (clearExternalID ?k1) = ''''"
          using assms(3) by simp_all
        from CreatePath_quiet_or_settled [OF assms(1) this] show ?thesis
          by (simp only: up)
      qed
    qed
  qed
qed

lemma Reconcile_quiet_or_settled:
  assumes "Consistent ad"
  shows "Quiet ad name (After (Reconcile ad name s))
       \<or> Settled ad name (After (Reconcile ad name s))"
proof (cases "store s name")
  case None
  then show ?thesis
    by (simp add: Quiet_def Reconcile_def)
next
  case (Some k)
  show ?thesis
  proof (cases "DeletionTimestamp (ObjectMeta k) = None")
    case False
    from DeletePath_quiet [OF assms Some False] Reconcile_delete [OF Some False]
    show ?thesis
      by simp
  next
    case True
    show ?thesis
    proof (cases "externalID k = ''''")
      case empty: True
      from CreatePath_quiet_or_settled [OF assms True empty] Reconcile_create [OF Some True empty]
      show ?thesis
        by simp
    next
      case False
      from ObservePath_quiet_or_settled [OF assms Some True False]
        Reconcile_observe [OF Some True False]
      show ?thesis
        by simp
    qed
  qed
qed

lemma isSuccessfulCreate_isCreateCall: "isSuccessfulCreate c \<Longrightarrow> isCreateCall c"
  by (cases c rule: isSuccessfulCreate.cases) simp_all

lemma Quiet_times:
  assumes "Quiet ad name s"
  shows "snd (ReconcileTimes n ad name s) = s
       \<and> (\<forall>c \<in> set (fst (ReconcileTimes n ad name s)). \<not> isSuccessfulCreate c)"
  using assms by (induction n) (auto simp add: Quiet_def Let_def)

lemma Settled_times:
  assumes "Consistent ad" and "Settled ad name s"
  shows "Settled ad name (snd (ReconcileTimes n ad name s))
       \<and> world (snd (ReconcileTimes n ad name s)) = world s
       \<and> secrets (snd (ReconcileTimes n ad name s)) = secrets s
       \<and> (\<forall>c \<in> set (fst (ReconcileTimes n ad name s)). \<not> isCreateCall c)"
  using assms(2)
proof (induction n arbitrary: s)
  case 0
  then show ?case
    by simp
next
  case (Suc n)
  from Settled_step [OF assms(1) Suc.prems] Suc.IH [of "After (Reconcile ad name s)"]
  show ?case
    by (auto simp add: Let_def)
qed

lemma Settled_times_fixed:
  assumes "Consistent ad" and "Settled ad name s"
  shows "snd (ReconcileTimes (Suc n) ad name s) = After (Reconcile ad name s)"
  using Settled_step [OF assms] Quiet_times [of ad name "After (Reconcile ad name s)" n]
  by (simp add: Let_def)

text \<open>
  C3, as stated, fails on the engine of section 4.1. Step 4 does not suppress the
  retry of a failed create: on a freshly declared resource and a provider that cannot
  be reached, two successive invocations issue two Create calls. And with an adapter
  whose create takes effect while its answer is lost (sections 5 and 9), the second
  invocation creates a second key at the provider, a further external side effect,
  although nothing but the engine touched the provider between the calls.
\<close>

theorem Reconcile_repeats_counterexample:
  "length (filter isCreateCall (fst (ReconcileTimes (Suc (Suc 0)) stubAdapter ''key1''
      (engineWith (sampleStored [''a''] '''' None []) (emptyProvider Unreachable))))) = 2
   \<and> Keys (world (After (Reconcile lossyAdapter ''key1''
        (engineWith (sampleStored [''a''] '''' None []) (emptyProvider Healthy)))))
        (''ch-gva-2'', ''EXOx'') = None
   \<and> Keys (world (snd (ReconcileTimes (Suc (Suc 0)) lossyAdapter ''key1''
        (engineWith (sampleStored [''a''] '''' None []) (emptyProvider Healthy)))))
        (''ch-gva-2'', ''EXOx'')
      = Some \<lparr>ExternalID = ''EXOx'', ExternalRoleID = ''role-EXOx'', RecordKeyName = ''key1'',
           RecordBuckets = [''a''], SecretKey = ''secret-EXOx''\<rparr>
   \<and> length (filter isCreateCall (fst (ReconcileTimes (Suc (Suc 0)) lossyAdapter ''key1''
      (engineWith (sampleStored [''a''] '''' None []) (emptyProvider Healthy))))) = 2"
  by (simp add: Reconcile_def CreatePath_def Let_def sample_defs stub_defs lossyAdapter_def
      lossyCreate_def GetKeyName_def GetExternalName_def newID_def status_defs)

text \<open>
  C3, amended. Let the adapter behave as a store of keys (\<open>Consistent\<close>: a created
  key can at once be fetched with its bucket scope, a create or revoke that fails
  leaves the provider as it was, a revoked key is not found afterwards). Then invoking
  \<open>Reconcile\<close> again and again for the same resource, with nothing else touching the
  provider or the stores, has no further effect: after the first invocation the
  provider and the secret store stay as that invocation left them, and no later
  invocation holds a successful Create; from the second invocation on the whole state
  is the same, the observed state and the conditions of the resource included. For a
  freshly declared resource whose first Create succeeds, any number of invocations
  issue exactly one Create call in total.
\<close>

theorem Reconcile_idempotent:
  assumes "Consistent ad"
  shows "world (snd (ReconcileTimes (Suc n) ad name s)) = world (After (Reconcile ad name s))
       \<and> secrets (snd (ReconcileTimes (Suc n) ad name s)) = secrets (After (Reconcile ad name s))
       \<and> snd (ReconcileTimes (Suc (Suc n)) ad name s) = snd (ReconcileTimes (Suc (Suc 0)) ad name s)
       \<and> (\<forall>c \<in> set (fst (ReconcileTimes n ad name (After (Reconcile ad name s)))).
            \<not> isSuccessfulCreate c)
       \<and> (store s name = Some k \<and> DeletionTimestamp (ObjectMeta k) = None \<and> externalID k = ''''
            \<and> fst (Create ad (world s) (desiredZone k) (GetKeyName k) (desiredBuckets k)) = Created r
          \<longrightarrow> length (filter isCreateCall (fst (ReconcileTimes (Suc n) ad name s))) = 1)"
proof -
  let ?s1 = "After (Reconcile ad name s)"
  have step: "snd (ReconcileTimes (Suc m) ad name s) = snd (ReconcileTimes m ad name ?s1)" for m
    by (simp add: Let_def)
  have calls: "fst (ReconcileTimes (Suc m) ad name s)
      = Calls (Reconcile ad name s) @ fst (ReconcileTimes m ad name ?s1)" for m
    by (simp add: Let_def)
  have fresh: "length (filter isCreateCall (fst (ReconcileTimes (Suc n) ad name s))) = 1"
    if "store s name = Some k" and "DeletionTimestamp (ObjectMeta k) = None"
      and "externalID k = ''''"
      and "fst (Create ad (world s) (desiredZone k) (GetKeyName k) (desiredBuckets k)) = Created r"
  proof -
    from that(1,2,3) have r1: "Reconcile ad name s = CreatePath ad name k [] s"
      by (rule Reconcile_create)
    from CreatePath_created_settled [OF assms that(2,4)] have "Settled ad name ?s1"
      by (simp add: r1)
    from Settled_times [OF assms this, of n]
    have "filter isCreateCall (fst (ReconcileTimes n ad name ?s1)) = []"
      by (simp add: filter_empty_conv)
    moreover from that(4) have "filter isCreateCall (Calls (Reconcile ad name s))
        = [CreateCall (desiredZone k) (GetKeyName k) (desiredBuckets k) (Created r)]"
      by (simp add: r1 CreatePath_def Let_def)
    ultimately show ?thesis
      by (simp add: calls del: ReconcileTimes.simps)
  qed
  from Reconcile_quiet_or_settled [OF assms, of name s]
  have main: "world (snd (ReconcileTimes n ad name ?s1)) = world ?s1
       \<and> secrets (snd (ReconcileTimes n ad name ?s1)) = secrets ?s1
       \<and> snd (ReconcileTimes (Suc n) ad name ?s1) = snd (ReconcileTimes (Suc 0) ad name ?s1)
       \<and> (\<forall>c \<in> set (fst (ReconcileTimes n ad name ?s1)). \<not> isSuccessfulCreate c)"
  proof
    assume q: "Quiet ad name ?s1"
    from Quiet_times [OF q, of n] Quiet_times [OF q, of "Suc n"] Quiet_times [OF q, of "Suc 0"]
    show ?thesis
      by simp
  next
    assume t: "Settled ad name ?s1"
    from Settled_times [OF assms t, of n] Settled_times_fixed [OF assms t, of n]
      Settled_times_fixed [OF assms t, of 0]
    show ?thesis
      by (auto dest: isSuccessfulCreate_isCreateCall)
  qed
  from main fresh show ?thesis
    unfolding step by blast
qed

lemma newID_nonempty: "newID n \<noteq> ''''"
  by (simp add: newID_def)

lemma stubAdapter_Consistent: "Consistent stubAdapter"
  unfolding Consistent_def
  by (auto simp add: stub_defs Let_def newID_nonempty split: if_splits option.splits)

lemma two_invocations_calls:
  "fst (ReconcileTimes (Suc (Suc 0)) stubAdapter ''key1''
      (engineWith (sampleStored [''a''] '''' None []) (emptyProvider Healthy)))
   = [CreateCall ''ch-gva-2'' ''key1'' [''a'']
        (Created \<lparr>ExternalID = ''EXO'', ExternalRoleID = ''role-EXO'', RecordKeyName = ''key1'',
           RecordBuckets = [''a''], SecretKey = ''secret-EXO''\<rparr>),
      FetchCall ''ch-gva-2'' ''EXO''
        (Found \<lparr>ExternalID = ''EXO'', ExternalRoleID = ''role-EXO'', RecordKeyName = ''key1'',
           RecordBuckets = [''a''], SecretKey = ''secret-EXO''\<rparr>)]"
  by (simp add: Reconcile_def CreatePath_def ObservePath_def Let_def sample_defs stub_defs
      GetKeyName_def GetExternalName_def newID_def status_defs)

theorem Reconcile_idempotent_witness:
  "length (filter isCreateCall (fst (ReconcileTimes (Suc (Suc 0)) stubAdapter ''key1''
      (engineWith (sampleStored [''a''] '''' None []) (emptyProvider Healthy))))) = 1
   \<and> snd (ReconcileTimes (Suc (Suc (Suc 0))) stubAdapter ''key1''
        (engineWith (sampleStored [''a''] '''' None []) (emptyProvider Healthy)))
     = snd (ReconcileTimes (Suc (Suc 0)) stubAdapter ''key1''
        (engineWith (sampleStored [''a''] '''' None []) (emptyProvider Healthy)))
   \<and> world (snd (ReconcileTimes (Suc (Suc 0)) stubAdapter ''key1''
        (engineWith (sampleStored [''a''] '''' None []) (emptyProvider Healthy))))
     = world (After (Reconcile stubAdapter ''key1''
        (engineWith (sampleStored [''a''] '''' None []) (emptyProvider Healthy))))"
proof -
  let ?k = "sampleStored [''a''] '''' None []"
  let ?s = "engineWith ?k (emptyProvider Healthy)"
  have h: "store ?s ''key1'' = Some ?k \<and> DeletionTimestamp (ObjectMeta ?k) = None
      \<and> externalID ?k = ''''
      \<and> fst (Create stubAdapter (world ?s) (desiredZone ?k) (GetKeyName ?k) (desiredBuckets ?k))
          = Created \<lparr>ExternalID = ''EXO'', ExternalRoleID = ''role-EXO'', RecordKeyName = ''key1'',
              RecordBuckets = [''a''], SecretKey = ''secret-EXO''\<rparr>"
    by (simp add: sample_defs stub_defs GetKeyName_def GetExternalName_def newID_def Let_def)
  from Reconcile_idempotent [OF stubAdapter_Consistent, where n = "Suc 0" and name = "''key1''"
      and s = ?s and k = ?k] h
  show ?thesis
    by blast
qed

subsection \<open>The engine on two scenarios of the specification\<close>

text \<open>
  Section 8 of the specification describes self-healing (the key of a stored external
  id is gone: one fetch, then exactly one create) and the recreation on a change of
  the bucket scope (a revoke followed by a create with the new buckets, under a new
  external id). The engine run on the stub adapter issues these calls.
\<close>

lemma self_healing_calls:
  "Calls (Reconcile stubAdapter ''key1''
      (engineWith (sampleStored [''a''] ''EXO'' None []) (emptyProvider Healthy)))
   = [FetchCall ''ch-gva-2'' ''EXO'' FetchNotFound,
      CreateCall ''ch-gva-2'' ''key1'' [''a'']
        (Created \<lparr>ExternalID = ''EXO'', ExternalRoleID = ''role-EXO'', RecordKeyName = ''key1'',
           RecordBuckets = [''a''], SecretKey = ''secret-EXO''\<rparr>)]"
  by (simp add: Reconcile_def ObservePath_def CreatePath_def Let_def sample_defs stub_defs
      GetKeyName_def GetExternalName_def newID_def status_defs)

lemma scope_change_calls:
  "Calls (Reconcile stubAdapter ''key1''
      (engineWith (sampleStored [''a'', ''b''] ''EXO'' None [])
         (providerWith (sampleRecord ''EXO'' [''a'']) Healthy)))
   = [FetchCall ''ch-gva-2'' ''EXO'' (Found (sampleRecord ''EXO'' [''a''])),
      RevokeCall ''ch-gva-2'' ''EXO'' Revoked,
      CreateCall ''ch-gva-2'' ''key1'' [''a'', ''b'']
        (Created \<lparr>ExternalID = ''EXOx'', ExternalRoleID = ''role-EXOx'', RecordKeyName = ''key1'',
           RecordBuckets = [''a'', ''b''], SecretKey = ''secret-EXOx''\<rparr>)]"
  by (simp add: Reconcile_def ObservePath_def UpdatePath_def CreatePath_def Let_def sample_defs
      stub_defs GetKeyName_def GetExternalName_def newID_def status_defs)

end
